theory Spec2Isabelle
  imports Complex_Main "HOL-Library.Multiset"
begin

section \<open>The shuffler\<close>

text \<open>
  \<^verbatim>\<open>shuffleArray(arr)\<close> pairs every element with a fresh \<^verbatim>\<open>Math.random()\<close> key, sorts the
  pairs by key and projects the values again. The random source is a parameter: \<open>rnd i\<close>
  is the key drawn for the element at index \<open>i\<close>. The keys only need a linear order
  (the comparator is \<^verbatim>\<open>a.sort - b.sort\<close> on numbers in [0,1)); the sort is stable.
\<close>

definition shuffleArray :: "(nat \<Rightarrow> 'k::linorder) \<Rightarrow> 'a list \<Rightarrow> 'a list" where
  "shuffleArray rnd arr =
     map fst (sort_key snd (map (\<lambda>i. (arr ! i, rnd i)) [0..<length arr]))"

text \<open>
  The same function over an explicit store, to make the allocation behaviour of the
  three array methods visible: \<^verbatim>\<open>map\<close> allocates a new array, \<^verbatim>\<open>sort\<close> sorts the array it is
  called on in place and returns the same reference. The store keeps the arrays of
  plain values and the arrays of \<^verbatim>\<open>{value, sort}\<close> objects apart; a reference is an index
  into the respective component, and a dangling reference is the error \<open>None\<close>.
\<close>

record ('a, 'k) store =
  arrays :: "'a list list"
  keyed :: "('a \<times> 'k) list list"

definition map_tag :: "(nat \<Rightarrow> 'k) \<Rightarrow> nat \<Rightarrow> ('a, 'k) store \<Rightarrow> (nat \<times> ('a, 'k) store) option" where
  "map_tag rnd a s =
     (if a < length (arrays s)
      then Some (length (keyed s),
                 s\<lparr>keyed := keyed s @ [map (\<lambda>i. (arrays s ! a ! i, rnd i)) [0..<length (arrays s ! a)]]\<rparr>)
      else None)"

definition sort_in_place :: "nat \<Rightarrow> ('a, 'k::linorder) store \<Rightarrow> (nat \<times> ('a, 'k) store) option" where
  "sort_in_place p s =
     (if p < length (keyed s)
      then Some (p, s\<lparr>keyed := (keyed s)[p := sort_key snd (keyed s ! p)]\<rparr>)
      else None)"

definition map_untag :: "nat \<Rightarrow> ('a, 'k) store \<Rightarrow> (nat \<times> ('a, 'k) store) option" where
  "map_untag p s =
     (if p < length (keyed s)
      then Some (length (arrays s), s\<lparr>arrays := arrays s @ [map fst (keyed s ! p)]\<rparr>)
      else None)"

definition shuffleArray_st ::
  "(nat \<Rightarrow> 'k::linorder) \<Rightarrow> nat \<Rightarrow> ('a, 'k) store \<Rightarrow> (nat \<times> ('a, 'k) store) option" where
  "shuffleArray_st rnd a s =
     (case map_tag rnd a s of
        None \<Rightarrow> None
      | Some (p, s1) \<Rightarrow>
          (case sort_in_place p s1 of
             None \<Rightarrow> None
           | Some (q, s2) \<Rightarrow> map_untag q s2))"

section \<open>The game state\<close>

datatype difficulty = Easy | Medium | Hard

fun difficultyMultiplier :: "difficulty \<Rightarrow> nat" where
  "difficultyMultiplier Easy = 2"
| "difficultyMultiplier Medium = 3"
| "difficultyMultiplier Hard = 4"

text \<open>
  One field per \<^verbatim>\<open>useState\<close> hook of the component. Card indices are integers, since
  \<^verbatim>\<open>flipCard\<close> accepts any number. The score is an integer: the only values stored are 0
  and the results of \<open>efficiency\<close> below.
\<close>

record 'a game =
  gridSize :: nat
  difficulty :: difficulty
  cards :: "'a list"
  flipped :: "int list"
  matched :: "int list"
  disabled :: bool
  moves :: nat
  startTime :: "nat option"
  elapsedTime :: nat
  score :: int
  emojiList :: "'a list"

definition initial :: "'a game" where
  "initial = \<lparr>gridSize = 4, difficulty = Easy, cards = [], flipped = [], matched = [],
     disabled = False, moves = 0, startTime = None, elapsedTime = 0, score = 0,
     emojiList = []\<rparr>"

section \<open>Deck construction\<close>

text \<open>
  \<^verbatim>\<open>startNewGame(size, diff)\<close>. The two calls of \<^verbatim>\<open>shuffleArray\<close> consume the random source
  one after the other: the first takes the draws \<open>0 ..< length emojiList\<close>, the second
  the draws after them. \<open>sz\<close> is the parameter \<^verbatim>\<open>size\<close>, \<open>now\<close> the value of \<^verbatim>\<open>Date.now()\<close>. \<open>adjustedTotal\<close> is a
  multiple of \<open>mult\<close>, so the JavaScript division is exact and is \<open>div\<close> here.
\<close>

definition startNewGame ::
  "(nat \<Rightarrow> 'k::linorder) \<Rightarrow> nat \<Rightarrow> nat \<Rightarrow> difficulty \<Rightarrow> 'a game \<Rightarrow> 'a game" where
  "startNewGame rnd now sz diff g =
     (if length (emojiList g) = 0 then g
      else
        let mult = difficultyMultiplier diff;
            totalCards = sz * sz;
            adjustedTotal = totalCards - (totalCards mod mult);
            uniqueNeeded = adjustedTotal div mult;
            selectedEmojis = take uniqueNeeded (shuffleArray rnd (emojiList g));
            deck = concat (map (replicate mult) selectedEmojis)
        in g\<lparr>cards := shuffleArray (\<lambda>i. rnd (length (emojiList g) + i)) deck,
              flipped := [], matched := [], moves := 0, elapsedTime := 0, score := 0,
              startTime := Some now, disabled := False\<rparr>)"

section \<open>Revealing cards\<close>

text \<open>
  \<^verbatim>\<open>cards[i]\<close>: an index outside the array (negative, or not below its length) reads
  \<^verbatim>\<open>undefined\<close>, which is \<open>None\<close> here. \<^verbatim>\<open>===\<close> on two such reads is equality of options.
\<close>

definition cardAt :: "'a list \<Rightarrow> int \<Rightarrow> 'a option" where
  "cardAt cs i = (if 0 \<le> i \<and> i < int (length cs) then Some (cs ! nat i) else None)"

text \<open>
  The callback that \<^verbatim>\<open>flipCard\<close> hands to \<^verbatim>\<open>setTimeout\<close> closes over the values of
  \<^verbatim>\<open>flipped\<close>, \<^verbatim>\<open>index\<close> and \<^verbatim>\<open>cards\<close> at the time of the click.
\<close>

type_synonym 'a closure = "int list \<times> int \<times> 'a list"

text \<open>
  \<^verbatim>\<open>flipCard(index)\<close> returns the updated state and the callback it scheduled, if any.
  The multiplier is 2, 3 or 4, so \<open>mult - 1\<close> on naturals is the JavaScript difference.
\<close>

definition flipCard :: "int \<Rightarrow> 'a game \<Rightarrow> 'a game \<times> 'a closure option" where
  "flipCard index g =
     (if disabled g \<or> index \<in> set (flipped g) \<or> index \<in> set (matched g) then (g, None)
      else if length (flipped g) = difficultyMultiplier (difficulty g) - 1
      then (g\<lparr>flipped := flipped g @ [index], disabled := True, moves := moves g + 1\<rparr>,
            Some (flipped g, index, cards g))
      else (g\<lparr>flipped := flipped g @ [index]\<rparr>, None))"

text \<open>
  The body of the timeout callback, run on the state current when it fires; \<open>flipped0\<close>
  and \<open>cards0\<close> are the captured values of \<^verbatim>\<open>flipped\<close> and \<^verbatim>\<open>cards\<close>, \<open>matched g\<close> is the
  \<^verbatim>\<open>prev\<close> of the updater.
  \<open>flippedEmojis\<close> holds at least the token of \<open>index\<close>, so its first element exists.
\<close>

definition timeoutCallback :: "'a closure \<Rightarrow> 'a game \<Rightarrow> 'a game" where
  "timeoutCallback c g =
     (case c of (flipped0, index, cards0) \<Rightarrow>
        let flippedEmojis = map (cardAt cards0) (flipped0 @ [index]);
            allMatch = list_all (\<lambda>e. e = hd flippedEmojis) flippedEmojis;
            g1 = (if allMatch then g\<lparr>matched := matched g @ flipped0 @ [index]\<rparr> else g)
        in g1\<lparr>flipped := [], disabled := False\<rparr>)"

section \<open>Completion and score\<close>

definition allMatched :: "'a game \<Rightarrow> bool" where
  "allMatched g = (length (matched g) = length (cards g) \<and> length (cards g) > 0)"

text \<open>
  The score expression of the completion effect, as a function of the move count, the
  deck length and the difficulty. The source computes in double-precision numbers.
  Where the deck length is a multiple of the group size, as for every deck that
  \<open>startNewGame\<close> builds for the same difficulty, all intermediate values are integers,
  which doubles hold exactly (for counts below \<open>2 ^ 53\<close>), and the function gives the
  value the source computes. Otherwise the quotient and the result are rounded
  doubles, which this model does not describe: the result is \<open>None\<close>.
\<close>

definition efficiency :: "nat \<Rightarrow> nat \<Rightarrow> difficulty \<Rightarrow> int option" where
  "efficiency mv len diff =
     (if difficultyMultiplier diff dvd len
      then let ideal = int (len div difficultyMultiplier diff)
           in Some (max 0 (100 - (int mv - ideal) * 5))
      else None)"

text \<open>
  The completion effect: it stores the score once all cards are matched. \<open>None\<close> is
  the case that \<open>efficiency\<close> leaves open.
\<close>

definition scoreEffect :: "'a game \<Rightarrow> 'a game option" where
  "scoreEffect g =
     (if allMatched g
      then (case efficiency (moves g) (length (cards g)) (difficulty g) of
              None \<Rightarrow> None
            | Some e \<Rightarrow> Some (g\<lparr>score := e\<rparr>))
      else Some g)"

section \<open>The component with its pending timeouts\<close>

text \<open>
  The component state together with the callbacks that \<^verbatim>\<open>setTimeout\<close> holds and has not
  run yet, oldest first (all have the same delay). \<^verbatim>\<open>timeoutRef\<close> keeps the identifier of
  the latest one only, and the source calls \<^verbatim>\<open>clearTimeout\<close> nowhere but in the cleanup
  on unmount, so every scheduled callback runs.
\<close>

type_synonym 'a app = "'a game \<times> 'a closure list"

text \<open>
  Choosing a grid size and a difficulty (\<^verbatim>\<open>setGridSize\<close>, \<^verbatim>\<open>setDifficulty\<close>) and the effect
  that then calls \<^verbatim>\<open>startNewGame(gridSize, difficulty)\<close>; with the values unchanged it is
  \<^verbatim>\<open>resetGame\<close>. \<open>startNewGame\<close> does not touch the pending timeouts.
\<close>

definition startGame ::
  "(nat \<Rightarrow> 'k::linorder) \<Rightarrow> nat \<Rightarrow> nat \<Rightarrow> difficulty \<Rightarrow> 'a app \<Rightarrow> 'a app" where
  "startGame rnd now sz diff b =
     (case b of (g, pending) \<Rightarrow>
        (startNewGame rnd now sz diff (g\<lparr>gridSize := sz, difficulty := diff\<rparr>), pending))"

text \<open>A click on card \<open>index\<close>: \<open>flipCard\<close>, and the callback it schedules joins the queue.\<close>

definition clickCard :: "int \<Rightarrow> 'a app \<Rightarrow> 'a app" where
  "clickCard index b =
     (case b of (g, pending) \<Rightarrow>
        (case flipCard index g of
           (g', None) \<Rightarrow> (g', pending)
         | (g', Some c) \<Rightarrow> (g', pending @ [c])))"

text \<open>The oldest pending timeout fires: its callback runs on the current state.\<close>

definition fireTimeout :: "'a app \<Rightarrow> 'a app" where
  "fireTimeout b =
     (case b of
        (g, []) \<Rightarrow> (g, [])
      | (g, c # pending) \<Rightarrow> (timeoutCallback c g, pending))"

definition run :: "('a app \<Rightarrow> 'a app) list \<Rightarrow> 'a app \<Rightarrow> 'a app" where
  "run steps b = fold (\<lambda>step b'. step b') steps b"

text \<open>
  The component once a pool of two tokens has been loaded, before its first game, and
  the random source of the example runs.
\<close>

definition loaded :: "string app" where
  "loaded = (initial\<lparr>emojiList := [''a'', ''b'']\<rparr>, [])"

definition draws :: "nat \<Rightarrow> nat" where
  "draws i = (7 * i + 3) mod 5"

text \<open>
  The same for the grid the interface starts with: eight tokens loaded, four by four.
\<close>

definition loadedEight :: "string app" where
  "loadedEight =
     (initial\<lparr>emojiList := [''a'', ''b'', ''c'', ''d'', ''e'', ''f'', ''g'', ''h'']\<rparr>, [])"

definition drawsEight :: "nat \<Rightarrow> nat" where
  "drawsEight i = (37 * i + 11) mod 101"

section \<open>Session invariants and an example session\<close>

text \<open>
  What holds of the index lists throughout a session: no revealed card is matched, and
  the matched cards come in whole groups of the current difficulty.
\<close>

definition session_inv :: "'a game \<Rightarrow> bool" where
  "session_inv g =
     (set (flipped g) \<inter> set (matched g) = {} \<and>
      difficultyMultiplier (difficulty g) dvd length (matched g))"

text \<open>
  A two-by-two game of pairs over a pool of two tokens, started from the initial state
  of the component with a fixed random source.
\<close>

definition exampleGame :: "string game" where
  "exampleGame =
     startNewGame (\<lambda>i. (7 * i + 3) mod 5) 0 2 Easy
       (initial\<lparr>gridSize := 2, emojiList := [''a'', ''b'']\<rparr>)"

section \<open>Properties of the shuffler\<close>

lemma map_fst_tag: "map fst (map (\<lambda>i. (arr ! i, rnd i)) [0..<length arr]) = arr"
  by (simp add: comp_def map_nth)

lemma mset_shuffleArray: "mset (shuffleArray rnd arr) = mset arr"
proof -
  let ?xs = "map (\<lambda>i. (arr ! i, rnd i)) [0..<length arr]"
  have "mset (map fst (sort_key snd ?xs)) = image_mset fst (mset (sort_key snd ?xs))"
    by (simp only: mset_map)
  also have "\<dots> = image_mset fst (mset ?xs)" by (simp only: mset_sort)
  also have "\<dots> = mset (map fst ?xs)" by (simp only: mset_map)
  also have "\<dots> = mset arr" by (simp only: map_fst_tag)
  finally show ?thesis by (simp only: shuffleArray_def)
qed

lemma length_shuffleArray: "length (shuffleArray rnd arr) = length arr"
  using mset_shuffleArray [of rnd arr] by (metis size_mset)

lemma set_shuffleArray: "set (shuffleArray rnd arr) = set arr"
  using mset_shuffleArray [of rnd arr] by (metis set_mset_mset)

lemma distinct_shuffleArray: "distinct (shuffleArray rnd arr) = distinct arr"
  using mset_shuffleArray [of rnd arr] by (metis mset_eq_imp_distinct_iff)

lemma count_list_shuffleArray: "count_list (shuffleArray rnd arr) t = count_list arr t"
  using mset_shuffleArray [of rnd arr] by (metis count_mset)

lemma shuffleArray_st_pure:
  assumes "a < length (arrays s)"
  shows "shuffleArray_st rnd a s =
    Some (length (arrays s),
          s\<lparr>keyed := keyed s @ [sort_key snd (map (\<lambda>i. (arrays s ! a ! i, rnd i)) [0..<length (arrays s ! a)])],
            arrays := arrays s @ [shuffleArray rnd (arrays s ! a)]\<rparr>)"
  using assms
  by (simp add: shuffleArray_st_def map_tag_def sort_in_place_def map_untag_def shuffleArray_def)

text \<open>
  C5. For every array in the store, \<open>shuffleArray\<close> returns (it never fails on an
  allocated array) a reference to a new array that is a permutation of the input: the
  same multiset of elements, hence the same length. No array that existed before the
  call is changed, the input among them. The result is the value of the pure function
  \<open>shuffleArray\<close>, which therefore preserves multiset and length as well.
\<close>

theorem shuffle_perm:
  "(a < length (arrays s) \<longrightarrow>
      (\<exists>r s'. shuffleArray_st rnd a s = Some (r, s') \<and>
         mset (arrays s' ! r) = mset (arrays s ! a) \<and>
         length (arrays s' ! r) = length (arrays s ! a) \<and>
         arrays s' ! r = shuffleArray rnd (arrays s ! a) \<and>
         r \<noteq> a \<and>
         (\<forall>b < length (arrays s). arrays s' ! b = arrays s ! b) \<and>
         (\<forall>p < length (keyed s). keyed s' ! p = keyed s ! p))) \<and>
   mset (shuffleArray rnd arr) = mset arr \<and>
   length (shuffleArray rnd arr) = length arr"
proof -
  have "\<exists>r s'. shuffleArray_st rnd a s = Some (r, s') \<and>
         mset (arrays s' ! r) = mset (arrays s ! a) \<and>
         length (arrays s' ! r) = length (arrays s ! a) \<and>
         arrays s' ! r = shuffleArray rnd (arrays s ! a) \<and>
         r \<noteq> a \<and>
         (\<forall>b < length (arrays s). arrays s' ! b = arrays s ! b) \<and>
         (\<forall>p < length (keyed s). keyed s' ! p = keyed s ! p)" if a: "a < length (arrays s)"
    using a
    by (simp add: shuffleArray_st_pure mset_shuffleArray length_shuffleArray nth_append)
  then show ?thesis
    by (simp add: mset_shuffleArray length_shuffleArray)
qed

lemma shuffleArray_example:
  "shuffleArray (\<lambda>i. (7 * i + 3) mod 5) [10, 20, 30 :: nat] = [20, 30, 10]"
  by code_simp

theorem shuffle_perm_witness:
  "\<exists>r s'. shuffleArray_st (\<lambda>i. (7 * i + 3) mod 5) 0
              (\<lparr>arrays = [[10, 20, 30]], keyed = []\<rparr> :: (nat, nat) store) = Some (r, s') \<and>
           arrays s' ! r = [20, 30, 10] \<and> arrays s' ! 0 = [10, 20, 30]"
proof -
  let ?s = "\<lparr>arrays = [[10, 20, 30]], keyed = []\<rparr> :: (nat, nat) store"
  let ?rnd = "\<lambda>i::nat. (7 * i + 3) mod (5::nat)"
  have a: "0 < length (arrays ?s)" by simp
  note sp = shuffle_perm [of 0 ?s ?rnd "[] :: nat list", THEN conjunct1, THEN mp, OF a]
  from sp obtain r s' where st: "shuffleArray_st ?rnd 0 ?s = Some (r, s')"
    and res: "arrays s' ! r = shuffleArray ?rnd (arrays ?s ! 0)"
    and frame: "\<forall>b < length (arrays ?s). arrays s' ! b = arrays ?s ! b"
    by blast
  from res have "arrays s' ! r = [20, 30, 10]" by (simp add: shuffleArray_example)
  moreover from frame have "arrays s' ! 0 = [10, 20, 30]" by simp
  ultimately show ?thesis using st by blast
qed


section \<open>Properties of deck construction\<close>

lemma count_list_replicate: "count_list (replicate m x) t = (if x = t then m else 0)"
  by (induction m) auto

lemma length_concat_replicate: "length (concat (map (replicate m) xs)) = m * length xs"
  by (induction xs) auto

lemma count_list_concat_replicate:
  "distinct xs \<Longrightarrow>
   count_list (concat (map (replicate m) xs)) t = (if t \<in> set xs then m else 0)"
  by (induction xs) (auto simp: count_list_replicate)

lemma set_concat_replicate: "0 < m \<Longrightarrow> set (concat (map (replicate m) xs)) = set xs"
  by (induction xs) auto

lemma difficultyMultiplier_pos: "0 < difficultyMultiplier diff"
  by (cases diff) auto

lemma uniqueNeeded_eq: "0 < m \<Longrightarrow> (n - n mod m) div m = n div (m::nat)"
  by (simp add: minus_mod_eq_mult_div)

text \<open>The deck of a started game, for any non-empty pool.\<close>

lemma startNewGame_cards:
  assumes "emojiList g \<noteq> []"
  shows "mset (cards (startNewGame rnd now sz diff g)) =
         mset (concat (map (replicate (difficultyMultiplier diff))
           (take (sz * sz div difficultyMultiplier diff) (shuffleArray rnd (emojiList g)))))"
  using assms
  by (simp add: startNewGame_def Let_def mset_shuffleArray uniqueNeeded_eq difficultyMultiplier_pos)

lemma startNewGame_deck:
  fixes g :: "'a game" and rnd :: "nat \<Rightarrow> 'k::linorder" and sz now :: nat and diff :: difficulty
  assumes ne: "emojiList g \<noteq> []" and d: "distinct (emojiList g)"
  defines "sel \<equiv> take (sz * sz div difficultyMultiplier diff) (shuffleArray rnd (emojiList g))"
  defines "cs \<equiv> cards (startNewGame rnd now sz diff g)"
  shows "length cs = difficultyMultiplier diff * min (sz * sz div difficultyMultiplier diff) (length (emojiList g))"
    and "count_list cs t = (if t \<in> set sel then difficultyMultiplier diff else 0)"
    and "set cs = set sel"
    and "card (set cs) = min (sz * sz div difficultyMultiplier diff) (length (emojiList g))"
    and "set sel \<subseteq> set (emojiList g)"
proof -
  let ?m = "difficultyMultiplier diff"
  have ms: "mset cs = mset (concat (map (replicate ?m) sel))"
    unfolding cs_def sel_def by (rule startNewGame_cards [OF ne])
  have dsel: "distinct sel"
    unfolding sel_def by (simp add: distinct_shuffleArray d)
  have lsel: "length sel = min (sz * sz div ?m) (length (emojiList g))"
    unfolding sel_def by (simp add: length_shuffleArray)
  have "length cs = length (concat (map (replicate ?m) sel))"
    using ms by (metis size_mset)
  then show "length cs = ?m * min (sz * sz div ?m) (length (emojiList g))"
    by (simp add: length_concat_replicate lsel)
  have "count_list cs t = count_list (concat (map (replicate ?m) sel)) t"
    using ms by (metis count_mset)
  then show "count_list cs t = (if t \<in> set sel then ?m else 0)"
    by (simp add: count_list_concat_replicate dsel)
  have "set cs = set (concat (map (replicate ?m) sel))"
    using ms by (metis set_mset_mset)
  then show sc: "set cs = set sel"
    by (simp add: set_concat_replicate difficultyMultiplier_pos)
  show "card (set cs) = min (sz * sz div ?m) (length (emojiList g))"
    using sc dsel lsel by (simp add: distinct_card)
  show "set sel \<subseteq> set (emojiList g)"
    unfolding sel_def using set_take_subset [of _ "shuffleArray rnd (emojiList g)"]
    by (simp add: set_shuffleArray)
qed

lemma largest_multiple:
  assumes "0 < (m::nat)" "m dvd k" "k \<le> n"
  shows "k \<le> m * (n div m)"
proof -
  from assms(2) obtain q where k: "k = m * q" by (auto simp: dvd_def)
  have "q = k div m" using k assms(1) by simp
  also have "\<dots> \<le> n div m" using assms(3) by (rule div_le_mono)
  finally show ?thesis using k by simp
qed

text \<open>
  C1. For a grid size of at least 2, any of the three difficulties (group sizes 2, 3, 4)
  and a pool of distinct tokens holding at least \<open>sz * sz div mult\<close> of them, the deck
  of \<open>startNewGame\<close> has as its length the largest multiple of the group size that does
  not exceed \<open>sz * sz\<close>, every token of the deck occurs exactly group-size many times,
  and the number of distinct tokens is the deck length divided by the group size.
\<close>

theorem deck_shape:
  assumes "2 \<le> sz" and "distinct (emojiList g)"
    and "sz * sz div difficultyMultiplier diff \<le> length (emojiList g)"
  shows "difficultyMultiplier diff dvd length (cards (startNewGame rnd now sz diff g)) \<and>
         length (cards (startNewGame rnd now sz diff g)) \<le> sz * sz \<and>
         (\<forall>k. difficultyMultiplier diff dvd k \<and> k \<le> sz * sz \<longrightarrow>
              k \<le> length (cards (startNewGame rnd now sz diff g))) \<and>
         (\<forall>t \<in> set (cards (startNewGame rnd now sz diff g)).
              count_list (cards (startNewGame rnd now sz diff g)) t = difficultyMultiplier diff) \<and>
         card (set (cards (startNewGame rnd now sz diff g))) =
           length (cards (startNewGame rnd now sz diff g)) div difficultyMultiplier diff"
proof -
  let ?m = "difficultyMultiplier diff"
  let ?cs = "cards (startNewGame rnd now sz diff g)"
  have mpos: "0 < ?m" by (rule difficultyMultiplier_pos)
  have "?m \<le> 4" by (cases diff) auto
  moreover have "4 \<le> sz * sz" using assms(1) mult_le_mono [of 2 sz 2 sz] by simp
  ultimately have "1 \<le> sz * sz div ?m"
    using mpos by (simp add: Suc_le_eq div_greater_zero_iff)
  with assms(3) have ne: "emojiList g \<noteq> []" by auto
  have len: "length ?cs = ?m * (sz * sz div ?m)"
    using startNewGame_deck(1) [OF ne assms(2), where diff = diff and sz = sz and rnd = rnd and now = now] assms(3) by (simp add: min_def)
  have cnt: "count_list ?cs t = ?m" if "t \<in> set ?cs" for t
    using that startNewGame_deck(2,3) [OF ne assms(2), where diff = diff and sz = sz and rnd = rnd and now = now] by simp
  have crd: "card (set ?cs) = sz * sz div ?m"
    using startNewGame_deck(4) [OF ne assms(2), where diff = diff and sz = sz and rnd = rnd and now = now] assms(3) by (simp add: min_def)
  have "?m dvd length ?cs" by (simp add: len)
  moreover have "length ?cs \<le> sz * sz" by (simp add: len)
  moreover have "\<forall>k. ?m dvd k \<and> k \<le> sz * sz \<longrightarrow> k \<le> length ?cs"
    using largest_multiple [OF mpos] by (simp add: len)
  moreover have "\<forall>t \<in> set ?cs. count_list ?cs t = ?m" using cnt by blast
  moreover have "card (set ?cs) = length ?cs div ?m" using mpos by (simp add: len crd)
  ultimately show ?thesis by blast
qed

theorem deck_shape_witness:
  "length (cards (startNewGame (\<lambda>i. (7 * i + 3) mod 5) 0 4 Medium
      ((initial :: string game)\<lparr>emojiList := [''a'', ''b'', ''c'', ''d'', ''e'']\<rparr>))) = 15 \<and>
   card (set (cards (startNewGame (\<lambda>i. (7 * i + 3) mod 5) 0 4 Medium
      ((initial :: string game)\<lparr>emojiList := [''a'', ''b'', ''c'', ''d'', ''e'']\<rparr>)))) = 5"
proof -
  let ?g = "(initial :: string game)\<lparr>emojiList := [''a'', ''b'', ''c'', ''d'', ''e'']\<rparr>"
  let ?cs = "cards (startNewGame (\<lambda>i. (7 * i + 3) mod 5) 0 4 Medium ?g)"
  have h1: "(2::nat) \<le> 4" by simp
  have h2: "distinct (emojiList ?g)" by simp
  have h3: "4 * 4 div difficultyMultiplier Medium \<le> length (emojiList ?g)" by simp
  note ds = deck_shape [OF h1 h2 h3, of "\<lambda>i. (7 * i + 3) mod 5" 0]
  have d: "3 dvd length ?cs" and u: "length ?cs \<le> 16" using ds by simp_all
  have "\<forall>k. 3 dvd k \<and> k \<le> 16 \<longrightarrow> k \<le> length ?cs" using ds by simp
  then have "3 dvd (15::nat) \<and> (15::nat) \<le> 16 \<longrightarrow> 15 \<le> length ?cs" by (rule spec)
  then have l: "15 \<le> length ?cs" by simp
  from d u l have len: "length ?cs = 15" by presburger
  have "card (set ?cs) = length ?cs div 3" using ds by simp
  with len show ?thesis by simp
qed

text \<open>
  C2, as the claim states it, fails: no error exists in deck construction. With three
  tokens for a four-by-four grid of pairs (eight tokens needed) \<open>startNewGame\<close>
  returns normally with a deck of six cards.
\<close>

theorem small_pool_underfilled:
  "length [''a'', ''b'', ''c''] < 4 * 4 div difficultyMultiplier Easy \<and>
   cards (startNewGame (\<lambda>i. (7 * i) mod 5) 0 4 Easy
       ((initial :: string game)\<lparr>emojiList := [''a'', ''b'', ''c'']\<rparr>))
     = [''b'', ''a'', ''c'', ''b'', ''a'', ''c'']"
  by code_simp

text \<open>
  C2, amended. With an empty pool \<open>startNewGame\<close> leaves the state as it is: no deck is
  built. With a non-empty pool of distinct tokens that is smaller than the number of
  tokens needed, it raises nothing and builds a deck from the whole pool: every pool
  token occurs exactly group-size many times, so the deck has pool length times group
  size cards, fewer than the grid has cells.
\<close>

theorem small_pool_deck:
  fixes g :: "'a game" and rnd :: "nat \<Rightarrow> 'k::linorder"
  shows
  "(emojiList g = [] \<longrightarrow> startNewGame rnd now sz diff g = g) \<and>
   (emojiList g \<noteq> [] \<and> distinct (emojiList g) \<and>
    length (emojiList g) < sz * sz div difficultyMultiplier diff \<longrightarrow>
      length (cards (startNewGame rnd now sz diff g)) =
        difficultyMultiplier diff * length (emojiList g) \<and>
      length (cards (startNewGame rnd now sz diff g)) < sz * sz \<and>
      set (cards (startNewGame rnd now sz diff g)) = set (emojiList g) \<and>
      (\<forall>t \<in> set (emojiList g).
         count_list (cards (startNewGame rnd now sz diff g)) t = difficultyMultiplier diff))"
proof -
  let ?m = "difficultyMultiplier diff"
  let ?cs = "cards (startNewGame rnd now sz diff g)"
  have "startNewGame rnd now sz diff g = g" if "emojiList g = []"
    using that by (simp add: startNewGame_def)
  moreover have "length ?cs = ?m * length (emojiList g) \<and> length ?cs < sz * sz \<and>
      set ?cs = set (emojiList g) \<and> (\<forall>t \<in> set (emojiList g). count_list ?cs t = ?m)"
    if ne: "emojiList g \<noteq> []" and d: "distinct (emojiList g)"
      and lt: "length (emojiList g) < sz * sz div ?m"
  proof -
    note deck1 = startNewGame_deck(1) [OF ne d, where diff = diff and sz = sz and rnd = rnd and now = now]
    note deck2 = startNewGame_deck(2) [OF ne d, where diff = diff and sz = sz and rnd = rnd and now = now]
    note deck3 = startNewGame_deck(3) [OF ne d, where diff = diff and sz = sz and rnd = rnd and now = now]
    have tk: "take (sz * sz div ?m) (shuffleArray rnd (emojiList g)) = shuffleArray rnd (emojiList g)"
      using lt by (simp add: length_shuffleArray)
    have len: "length ?cs = ?m * length (emojiList g)"
      using deck1 lt by (simp add: min_def)
    have "?m * length (emojiList g) < ?m * (sz * sz div ?m)"
      using lt difficultyMultiplier_pos [of diff] by simp
    also have "\<dots> \<le> sz * sz" by simp
    finally have small: "length ?cs < sz * sz" using len by simp
    have st: "set ?cs = set (emojiList g)"
      using deck3 by (simp add: tk set_shuffleArray)
    have "count_list ?cs t = ?m" if "t \<in> set (emojiList g)" for t
      using deck2 [of t] that by (simp add: tk set_shuffleArray)
    with len small st show ?thesis by blast
  qed
  ultimately show ?thesis by blast
qed

theorem small_pool_deck_witness:
  "startNewGame (\<lambda>i. (7 * i) mod 5) 0 4 Easy (initial :: string game) = initial \<and>
   length (cards (startNewGame (\<lambda>i. (7 * i) mod 5) 0 4 Easy
       ((initial :: string game)\<lparr>emojiList := [''a'', ''b'', ''c'']\<rparr>))) = 6"
proof -
  let ?rnd = "\<lambda>i::nat. (7 * i) mod (5::nat)"
  let ?g = "(initial :: string game)\<lparr>emojiList := [''a'', ''b'', ''c'']\<rparr>"
  have e: "emojiList (initial :: string game) = []" by (simp add: initial_def)
  have h: "emojiList ?g \<noteq> [] \<and> distinct (emojiList ?g) \<and>
    length (emojiList ?g) < 4 * 4 div difficultyMultiplier Easy" by simp
  from small_pool_deck [of "initial :: string game" ?rnd 0 4 Easy] e
  have "startNewGame ?rnd 0 4 Easy (initial :: string game) = initial" by blast
  moreover from small_pool_deck [of ?g ?rnd 0 4 Easy] h
  have "length (cards (startNewGame ?rnd 0 4 Easy ?g)) = difficultyMultiplier Easy * length (emojiList ?g)"
    by blast
  ultimately show ?thesis by simp
qed

section \<open>Properties of the score\<close>

text \<open>
  Where the score expression agrees with a score out of 100: for a deck of whole groups
  it is 100 at the ideal move count (deck length divided by group size), 95 one move
  above it, never negative, and at most 100 for every move count that is not below the
  ideal one. It has no upper clamp: below the ideal move count it exceeds 100.
\<close>

lemma efficiency_values:
  assumes "difficultyMultiplier diff dvd len"
  shows "efficiency (len div difficultyMultiplier diff) len diff = Some 100"
    and "efficiency (len div difficultyMultiplier diff + 1) len diff = Some 95"
    and "\<exists>e. efficiency mv len diff = Some e \<and> 0 \<le> e"
    and "len \<le> difficultyMultiplier diff * mv \<Longrightarrow>
         \<exists>e. efficiency mv len diff = Some e \<and> e \<le> 100"
proof -
  let ?m = "difficultyMultiplier diff"
  have mpos: "0 < ?m" by (rule difficultyMultiplier_pos)
  show "efficiency (len div ?m) len diff = Some 100"
    and "efficiency (len div ?m + 1) len diff = Some 95"
    and "\<exists>e. efficiency mv len diff = Some e \<and> 0 \<le> e"
    using assms by (simp_all add: efficiency_def Let_def)
  show "\<exists>e. efficiency mv len diff = Some e \<and> e \<le> 100" if le: "len \<le> ?m * mv"
  proof -
    have "len div ?m \<le> (?m * mv) div ?m" using le by (rule div_le_mono)
    then have "len div ?m \<le> mv" using mpos by simp
    then show ?thesis using assms by (simp add: efficiency_def Let_def)
  qed
qed

lemma efficiency_unclamped: "efficiency 0 16 Easy = Some 140"
  by (simp add: efficiency_def)

text \<open>
  C4. The score is to lie between 0 and 100 for every move count, and the source means
  it to (``score out of 100'', shown as score/100). The code breaks this. In a
  two-by-two game of pairs the cards 0 and 2 are revealed, a matching pair; the game is
  started again while the timeout is pending; the callback of the old game then
  commits 0 and 2 to the new game, which has the same deck, without a move counted.
  Revealing 1 and 3 completes the game in one move where two are ideal, and the
  completion effect stores the score 105.
\<close>

theorem score_exceeds_100:
  "(let g = fst (run [startGame draws 0 2 Easy, clickCard 0, clickCard 2,
                      startGame draws 1 2 Easy, fireTimeout,
                      clickCard 1, clickCard 3, fireTimeout] loaded)
    in cards g = [''a'', ''b'', ''a'', ''b''] \<and> matched g = [0, 2, 1, 3] \<and> allMatched g \<and>
       moves g = 1 \<and> map_option score (scoreEffect g) = Some 105)"
  by code_simp

text \<open>
  The same on the four-by-four grid of the interface, the game started again through
  the difficulty selector (to triples and back to pairs) while the timeout is pending:
  the game is completed in seven moves where eight are ideal.
\<close>

lemma grid4_decks:
  "cards (fst (startGame drawsEight 0 4 Easy loadedEight)) =
     [''a'', ''h'', ''d'', ''f'', ''b'', ''e'', ''a'', ''c'',
      ''g'', ''f'', ''b'', ''h'', ''d'', ''c'', ''g'', ''e'']"
  "cards (fst (startGame drawsEight 0 4 Medium loadedEight)) =
     [''a'', ''b'', ''d'', ''e'', ''g'', ''b'', ''a'', ''e'',
      ''d'', ''g'', ''b'', ''a'', ''e'', ''d'', ''g'']"
  by code_simp+

lemma score_exceeds_100_grid4:
  "(let g = fst (run [startGame drawsEight 0 4 Easy, clickCard 0, clickCard 6,
                      startGame drawsEight 1 4 Medium, startGame drawsEight 2 4 Easy,
                      fireTimeout,
                      clickCard 1, clickCard 11, fireTimeout,
                      clickCard 2, clickCard 12, fireTimeout,
                      clickCard 3, clickCard 9, fireTimeout,
                      clickCard 4, clickCard 10, fireTimeout,
                      clickCard 5, clickCard 15, fireTimeout,
                      clickCard 7, clickCard 13, fireTimeout,
                      clickCard 8, clickCard 14, fireTimeout] loadedEight)
    in length (cards g) = 16 \<and> allMatched g \<and> moves g = 7 \<and>
       map_option score (scoreEffect g) = Some 105)"
  by code_simp

section \<open>Properties of revealing and resolving\<close>

lemma exampleGame_eq:
  "exampleGame = \<lparr>gridSize = 2, difficulty = Easy, cards = [''a'', ''b'', ''a'', ''b''],
     flipped = [], matched = [], disabled = False, moves = 0, startTime = Some 0,
     elapsedTime = 0, score = 0, emojiList = [''a'', ''b'']\<rparr>"
  by code_simp

lemma difficultyMultiplier_ge2: "2 \<le> difficultyMultiplier diff"
  by (cases diff) auto

lemma flipCard_ignored_eq:
  "disabled g \<or> index \<in> set (flipped g) \<or> index \<in> set (matched g) \<Longrightarrow>
   flipCard index g = (g, None)"
  by (simp add: flipCard_def)

lemma flipCard_complete_eq:
  "\<not> disabled g \<Longrightarrow> index \<notin> set (flipped g) \<Longrightarrow> index \<notin> set (matched g) \<Longrightarrow>
   length (flipped g) = difficultyMultiplier (difficulty g) - 1 \<Longrightarrow>
   flipCard index g =
     (g\<lparr>flipped := flipped g @ [index], disabled := True, moves := moves g + 1\<rparr>,
      Some (flipped g, index, cards g))"
  by (simp add: flipCard_def)

lemma flipCard_partial_eq:
  "\<not> disabled g \<Longrightarrow> index \<notin> set (flipped g) \<Longrightarrow> index \<notin> set (matched g) \<Longrightarrow>
   length (flipped g) \<noteq> difficultyMultiplier (difficulty g) - 1 \<Longrightarrow>
   flipCard index g = (g\<lparr>flipped := flipped g @ [index]\<rparr>, None)"
  by (simp add: flipCard_def)

lemma flipCard_scheduled:
  assumes "flipCard index g = (g', Some c)"
  shows "\<not> disabled g" and "index \<notin> set (flipped g)" and "index \<notin> set (matched g)"
    and "length (flipped g) = difficultyMultiplier (difficulty g) - 1"
    and "g' = g\<lparr>flipped := flipped g @ [index], disabled := True, moves := moves g + 1\<rparr>"
    and "c = (flipped g, index, cards g)"
  using assms by (auto simp: flipCard_def split: if_splits)

lemma allMatch_iff:
  "xs \<noteq> [] \<Longrightarrow>
   list_all (\<lambda>e. e = hd (map f xs)) (map f xs) \<longleftrightarrow> (\<forall>i \<in> set xs. \<forall>j \<in> set xs. f i = f j)"
  by (cases xs) (auto simp: list_all_iff)

lemma timeoutCallback_eq:
  "timeoutCallback (fl, index, cs) g =
     (if (\<forall>i \<in> set (fl @ [index]). \<forall>j \<in> set (fl @ [index]). cardAt cs i = cardAt cs j)
      then g\<lparr>matched := matched g @ fl @ [index], flipped := [], disabled := False\<rparr>
      else g\<lparr>flipped := [], disabled := False\<rparr>)"
proof -
  have ne: "fl @ [index] \<noteq> []" by simp
  define same where
    "same \<longleftrightarrow> (\<forall>i \<in> set (fl @ [index]). \<forall>j \<in> set (fl @ [index]). cardAt cs i = cardAt cs j)"
  have "timeoutCallback (fl, index, cs) g =
      (if same then g\<lparr>matched := matched g @ fl @ [index]\<rparr> else g)\<lparr>flipped := [], disabled := False\<rparr>"
    unfolding timeoutCallback_def Let_def prod.case allMatch_iff [OF ne] same_def ..
  also have "\<dots> = (if same then g\<lparr>matched := matched g @ fl @ [index], flipped := [], disabled := False\<rparr>
      else g\<lparr>flipped := [], disabled := False\<rparr>)"
    by (cases same) simp_all
  finally show ?thesis unfolding same_def .
qed

lemma example_first_flip:
  "flipCard 0 exampleGame = (exampleGame\<lparr>flipped := [0]\<rparr>, None)"
  by (simp add: flipCard_def exampleGame_eq)



lemma example_out_of_range:
  "flipCard (- 1) (exampleGame\<lparr>flipped := [7]\<rparr>) =
     (exampleGame\<lparr>flipped := [7, - 1], disabled := True, moves := 1\<rparr>,
      Some ([7], - 1, [''a'', ''b'', ''a'', ''b'']))"
  by (simp add: flipCard_def exampleGame_eq)




text \<open>
  C6, as the claim states it, fails on its last case: \<open>flipCard\<close> does not look at the
  deck. In the initial state of the component, where no deck exists, revealing index 0
  puts it into the revealed list.
\<close>

theorem flipCard_without_deck:
  "cards (initial :: string game) = [] \<and>
   flipCard 0 (initial :: string game) = (initial\<lparr>flipped := [0]\<rparr>, None) \<and>
   flipped (fst (flipCard 0 (initial :: string game))) \<noteq> flipped (initial :: string game)"
  by (simp add: flipCard_def initial_def)

text \<open>
  C6, amended. A reveal whose index is already revealed, or already matched, or that is
  issued while the lock is set, leaves the whole state unchanged and schedules nothing.
\<close>

theorem flipCard_ignored:
  "disabled g \<or> index \<in> set (flipped g) \<or> index \<in> set (matched g) \<Longrightarrow>
   flipCard index g = (g, None)"
  by (rule flipCard_ignored_eq)

theorem flipCard_ignored_witness:
  "flipCard 0 (exampleGame\<lparr>disabled := True\<rparr>) = (exampleGame\<lparr>disabled := True\<rparr>, None) \<and>
   flipCard 0 (exampleGame\<lparr>flipped := [0]\<rparr>) = (exampleGame\<lparr>flipped := [0]\<rparr>, None) \<and>
   flipCard 2 (exampleGame\<lparr>matched := [0, 2]\<rparr>) = (exampleGame\<lparr>matched := [0, 2]\<rparr>, None)"
  using flipCard_ignored [of "exampleGame\<lparr>disabled := True\<rparr>" 0]
    flipCard_ignored [of "exampleGame\<lparr>flipped := [0]\<rparr>" 0]
    flipCard_ignored [of "exampleGame\<lparr>matched := [0, 2]\<rparr>" 2]
  by simp

text \<open>
  C7. A reveal that is not ignored and finds one card short of a group revealed is
  accepted, brings the revealed list to group size, schedules the resolution and
  raises the move counter by one. Every other reveal leaves the counter as it is and
  schedules nothing; in particular the counter is unchanged whenever the revealed list
  stays below group size. A resolution is scheduled exactly when the revealed list has
  grown by the index to group size, and the resolution itself never touches the
  counter.
\<close>

theorem moves_increment:
  "(\<not> disabled g \<and> index \<notin> set (flipped g) \<and> index \<notin> set (matched g) \<and>
    length (flipped g) + 1 = difficultyMultiplier (difficulty g) \<longrightarrow>
      moves (fst (flipCard index g)) = moves g + 1 \<and>
      flipped (fst (flipCard index g)) = flipped g @ [index] \<and>
      length (flipped (fst (flipCard index g))) = difficultyMultiplier (difficulty g) \<and>
      snd (flipCard index g) = Some (flipped g, index, cards g)) \<and>
   (\<not> (\<not> disabled g \<and> index \<notin> set (flipped g) \<and> index \<notin> set (matched g) \<and>
       length (flipped g) + 1 = difficultyMultiplier (difficulty g)) \<longrightarrow>
      moves (fst (flipCard index g)) = moves g \<and> snd (flipCard index g) = None) \<and>
   (length (flipped (fst (flipCard index g))) < difficultyMultiplier (difficulty g) \<longrightarrow>
      moves (fst (flipCard index g)) = moves g) \<and>
   (snd (flipCard index g) \<noteq> None \<longleftrightarrow>
      flipped (fst (flipCard index g)) = flipped g @ [index] \<and>
      length (flipped (fst (flipCard index g))) = difficultyMultiplier (difficulty g)) \<and>
   moves (timeoutCallback c g2) = moves g2"
proof -
  let ?m = "difficultyMultiplier (difficulty g)"
  have m2: "2 \<le> ?m" by (rule difficultyMultiplier_ge2)
  have tc: "moves (timeoutCallback c g2) = moves g2"
    by (cases c) (simp add: timeoutCallback_eq)
  consider (ignored) "disabled g \<or> index \<in> set (flipped g) \<or> index \<in> set (matched g)"
    | (complete) "\<not> disabled g" "index \<notin> set (flipped g)" "index \<notin> set (matched g)"
        "length (flipped g) = ?m - 1"
    | (partial) "\<not> disabled g" "index \<notin> set (flipped g)" "index \<notin> set (matched g)"
        "length (flipped g) \<noteq> ?m - 1"
    by blast
  then have "(\<not> disabled g \<and> index \<notin> set (flipped g) \<and> index \<notin> set (matched g) \<and>
    length (flipped g) + 1 = ?m \<longrightarrow>
      moves (fst (flipCard index g)) = moves g + 1 \<and>
      flipped (fst (flipCard index g)) = flipped g @ [index] \<and>
      length (flipped (fst (flipCard index g))) = ?m \<and>
      snd (flipCard index g) = Some (flipped g, index, cards g)) \<and>
   (\<not> (\<not> disabled g \<and> index \<notin> set (flipped g) \<and> index \<notin> set (matched g) \<and>
       length (flipped g) + 1 = ?m) \<longrightarrow>
      moves (fst (flipCard index g)) = moves g \<and> snd (flipCard index g) = None) \<and>
   (length (flipped (fst (flipCard index g))) < ?m \<longrightarrow>
      moves (fst (flipCard index g)) = moves g) \<and>
   (snd (flipCard index g) \<noteq> None \<longleftrightarrow>
      flipped (fst (flipCard index g)) = flipped g @ [index] \<and>
      length (flipped (fst (flipCard index g))) = ?m)"
  proof cases
    case ignored
    have "flipCard index g = (g, None)" by (rule flipCard_ignored_eq [OF ignored])
    then show ?thesis using ignored by auto
  next
    case complete
    have "flipCard index g =
      (g\<lparr>flipped := flipped g @ [index], disabled := True, moves := moves g + 1\<rparr>,
       Some (flipped g, index, cards g))" by (rule flipCard_complete_eq [OF complete])
    then show ?thesis using complete m2 by simp
  next
    case partial
    have "flipCard index g = (g\<lparr>flipped := flipped g @ [index]\<rparr>, None)"
      by (rule flipCard_partial_eq [OF partial])
    then show ?thesis using partial m2 by auto
  qed
  with tc show ?thesis by blast
qed

theorem moves_increment_witness:
  "moves (fst (flipCard 2 (exampleGame\<lparr>flipped := [0]\<rparr>))) =
     moves (exampleGame\<lparr>flipped := [0]\<rparr>) + 1 \<and>
   snd (flipCard 2 (exampleGame\<lparr>flipped := [0]\<rparr>)) =
     Some ([0], 2, [''a'', ''b'', ''a'', ''b'']) \<and>
   moves (fst (flipCard 0 exampleGame)) = moves exampleGame \<and>
   snd (flipCard 0 exampleGame) = None \<and>
   moves (timeoutCallback ([0], 2, [''a'', ''b'', ''a'', ''b''])
      (exampleGame\<lparr>flipped := [0, 2], disabled := True, moves := 1\<rparr>)) = 1"
proof -
  let ?g = "exampleGame\<lparr>flipped := [0]\<rparr>"
  let ?c = "([0], 2, [''a'', ''b'', ''a'', ''b''])"
  let ?g2 = "exampleGame\<lparr>flipped := [0, 2], disabled := True, moves := 1\<rparr>"
  have h1: "\<not> disabled ?g \<and> 2 \<notin> set (flipped ?g) \<and> 2 \<notin> set (matched ?g) \<and>
      length (flipped ?g) + 1 = difficultyMultiplier (difficulty ?g)"
    by (simp add: exampleGame_eq)
  have h2: "\<not> (\<not> disabled exampleGame \<and> 0 \<notin> set (flipped exampleGame) \<and>
      0 \<notin> set (matched exampleGame) \<and>
      length (flipped exampleGame) + 1 = difficultyMultiplier (difficulty exampleGame))"
    by (simp add: exampleGame_eq)
  note t1 = moves_increment [where g = ?g and index = 2 and c = ?c and ?g2.0 = ?g2]
  note t2 = moves_increment [where g = exampleGame and index = 0 and c = ?c and ?g2.0 = ?g2]
  note a = t1 [THEN conjunct1, THEN mp, OF h1]
  note b = t2 [THEN conjunct2, THEN conjunct1, THEN mp, OF h2]
  note d = t1 [THEN conjunct2, THEN conjunct2, THEN conjunct2, THEN conjunct2]
  have cs: "cards ?g = [''a'', ''b'', ''a'', ''b'']" and fl: "flipped ?g = [0]"
    and mv: "moves ?g2 = 1"
    by (simp_all add: exampleGame_eq)
  from a b d show ?thesis unfolding cs fl mv by blast
qed

text \<open>
  C10. A reveal that is not ignored for another reason is accepted also when its index
  lies outside the deck: the index is appended to the revealed list, and the token
  lookup at it yields nothing. If it completes a group all of whose indices lie outside
  the deck, the lookups agree and the resolution appends these indices to the matched
  list.
\<close>

theorem out_of_range_reveal:
  assumes "\<not> disabled g" and "index \<notin> set (flipped g)" and "index \<notin> set (matched g)"
    and "index < 0 \<or> int (length (cards g)) \<le> index"
  shows "cardAt (cards g) index = None \<and>
    flipped (fst (flipCard index g)) = flipped g @ [index] \<and>
    (length (flipped g) = difficultyMultiplier (difficulty g) - 1 \<and>
     (\<forall>i \<in> set (flipped g). i < 0 \<or> int (length (cards g)) \<le> i) \<longrightarrow>
       (\<exists>c. snd (flipCard index g) = Some c \<and>
            matched (timeoutCallback c (fst (flipCard index g))) = matched g @ flipped g @ [index]))"
proof -
  have none: "cardAt (cards g) index = None"
    using assms(4) by (auto simp: cardAt_def)
  have fl: "flipped (fst (flipCard index g)) = flipped g @ [index]"
    using assms(1-3) by (simp add: flipCard_def)
  have "\<exists>c. snd (flipCard index g) = Some c \<and>
            matched (timeoutCallback c (fst (flipCard index g))) = matched g @ flipped g @ [index]"
    if len: "length (flipped g) = difficultyMultiplier (difficulty g) - 1"
      and out: "\<forall>i \<in> set (flipped g). i < 0 \<or> int (length (cards g)) \<le> i"
  proof -
    have all_none: "cardAt (cards g) i = None" if "i \<in> set (flipped g @ [index])" for i
      using that out assms(4) by (auto simp: cardAt_def)
    then have same: "\<forall>i \<in> set (flipped g @ [index]). \<forall>j \<in> set (flipped g @ [index]).
        cardAt (cards g) i = cardAt (cards g) j" by simp
    have "timeoutCallback (flipped g, index, cards g)
        (g\<lparr>flipped := flipped g @ [index], disabled := True, moves := moves g + 1\<rparr>) =
        g\<lparr>flipped := flipped g @ [index], disabled := True, moves := moves g + 1\<rparr>
          \<lparr>matched := matched (g\<lparr>flipped := flipped g @ [index], disabled := True,
            moves := moves g + 1\<rparr>) @ flipped g @ [index], flipped := [], disabled := False\<rparr>"
      unfolding timeoutCallback_eq by (rule if_P [OF same])
    then have "matched (timeoutCallback (flipped g, index, cards g)
        (g\<lparr>flipped := flipped g @ [index], disabled := True, moves := moves g + 1\<rparr>)) =
        matched g @ flipped g @ [index]"
      by simp
    then show ?thesis
      by (simp add: flipCard_complete_eq [OF assms(1-3) len])
  qed
  with none fl show ?thesis by blast
qed

theorem out_of_range_reveal_witness:
  "cardAt (cards (exampleGame\<lparr>flipped := [7]\<rparr>)) (- 1) = None \<and>
   flipped (fst (flipCard (- 1) (exampleGame\<lparr>flipped := [7]\<rparr>))) = [7, - 1] \<and>
   (\<exists>c. snd (flipCard (- 1) (exampleGame\<lparr>flipped := [7]\<rparr>)) = Some c \<and>
      matched (timeoutCallback c (fst (flipCard (- 1) (exampleGame\<lparr>flipped := [7]\<rparr>)))) = [7, - 1])"
proof -
  let ?g = "exampleGame\<lparr>flipped := [7]\<rparr>"
  have h1: "\<not> disabled ?g" and h2: "- 1 \<notin> set (flipped ?g)" and h3: "- 1 \<notin> set (matched ?g)"
    and h4: "(- 1 :: int) < 0 \<or> int (length (cards ?g)) \<le> - 1"
    by (simp_all add: exampleGame_eq)
  note t = out_of_range_reveal [OF h1 h2 h3 h4]
  have h5: "length (flipped ?g) = difficultyMultiplier (difficulty ?g) - 1 \<and>
     (\<forall>i \<in> set (flipped ?g). i < 0 \<or> int (length (cards ?g)) \<le> i)"
    by (simp add: exampleGame_eq)
  have e1: "matched ?g @ flipped ?g @ [- 1] = [7, - 1]" and e2: "flipped ?g @ [- 1] = [7, - 1]"
    by (simp_all add: exampleGame_eq)
  note a = t [THEN conjunct1]
  note b = t [THEN conjunct2, THEN conjunct1, unfolded e2]
  note c = t [THEN conjunct2, THEN conjunct2, THEN mp, OF h5, unfolded e1]
  from a b c show ?thesis by (intro conjI)
qed

section \<open>Properties of a session\<close>

lemma startNewGame_fields:
  assumes "emojiList g \<noteq> []"
  shows "flipped (startNewGame rnd now sz diff g) = []"
    and "matched (startNewGame rnd now sz diff g) = []"
    and "moves (startNewGame rnd now sz diff g) = 0"
    and "\<not> disabled (startNewGame rnd now sz diff g)"
    and "difficulty (startNewGame rnd now sz diff g) = difficulty g"
  using assms by (simp_all add: startNewGame_def Let_def)

lemma startNewGame_empty_pool: "emojiList g = [] \<Longrightarrow> startNewGame rnd now sz diff g = g"
  by (simp add: startNewGame_def)

lemma flipCard_fields:
  "matched (fst (flipCard index g)) = matched g"
  "difficulty (fst (flipCard index g)) = difficulty g"
  "cards (fst (flipCard index g)) = cards g"
  "moves g \<le> moves (fst (flipCard index g))"
  by (simp_all add: flipCard_def)

lemma flipCard_flipped:
  "flipped (fst (flipCard index g)) = flipped g \<or>
   (index \<notin> set (flipped g) \<and> index \<notin> set (matched g) \<and>
    flipped (fst (flipCard index g)) = flipped g @ [index])"
  by (simp add: flipCard_def)

text \<open>
  The state after a completed group has been resolved, in terms of the state before
  the reveal that completed it.
\<close>

lemma resolve_fields:
  assumes "flipCard index g = (g', Some c)"
  shows "flipped (timeoutCallback c g') = []"
    and "matched (timeoutCallback c g') = matched g \<or>
         matched (timeoutCallback c g') = matched g @ flipped g @ [index]"
    and "difficulty (timeoutCallback c g') = difficulty g"
    and "cards (timeoutCallback c g') = cards g"
    and "moves (timeoutCallback c g') = moves g + 1"
    and "moves g' = moves g + 1"
proof -
  note f = flipCard_scheduled [OF assms]
  define same where
    "same \<longleftrightarrow> (\<forall>i \<in> set (flipped g @ [index]). \<forall>j \<in> set (flipped g @ [index]).
        cardAt (cards g) i = cardAt (cards g) j)"
  have tc: "timeoutCallback c g' =
      (if same then g'\<lparr>matched := matched g' @ flipped g @ [index], flipped := [], disabled := False\<rparr>
       else g'\<lparr>flipped := [], disabled := False\<rparr>)"
    unfolding f(6) timeoutCallback_eq same_def ..
  show "flipped (timeoutCallback c g') = []" unfolding tc by (cases same) simp_all
  show "matched (timeoutCallback c g') = matched g \<or>
         matched (timeoutCallback c g') = matched g @ flipped g @ [index]"
    unfolding tc by (cases same) (simp_all add: f(5))
  show "difficulty (timeoutCallback c g') = difficulty g"
    unfolding tc by (cases same) (simp_all add: f(5))
  show "cards (timeoutCallback c g') = cards g"
    unfolding tc by (cases same) (simp_all add: f(5))
  show "moves (timeoutCallback c g') = moves g + 1"
    unfolding tc by (cases same) (simp_all add: f(5))
  show "moves g' = moves g + 1" by (simp add: f(5))
qed

lemma session_inv_start:
  "emojiList g \<noteq> [] \<Longrightarrow> session_inv (startNewGame rnd now sz diff g)"
  by (simp add: session_inv_def startNewGame_fields)

lemma session_inv_flip:
  assumes "session_inv g"
  shows "session_inv (fst (flipCard index g))"
  using assms flipCard_flipped [of index g]
  by (auto simp: session_inv_def flipCard_fields)

lemma session_inv_resolve:
  assumes "session_inv g" and "flipCard index g = (g', Some c)"
  shows "session_inv (timeoutCallback c g')"
proof -
  note f = flipCard_scheduled [OF assms(2)]
  note r = resolve_fields [OF assms(2)]
  have m2: "2 \<le> difficultyMultiplier (difficulty g)" by (rule difficultyMultiplier_ge2)
  have "length (flipped g @ [index]) = difficultyMultiplier (difficulty g)"
    using f(4) m2 by simp
  then have "difficultyMultiplier (difficulty g) dvd length (matched g @ flipped g @ [index])"
    using assms(1) by (simp add: session_inv_def)
  moreover have "difficultyMultiplier (difficulty g) dvd length (matched g)"
    using assms(1) by (simp add: session_inv_def)
  ultimately have "difficultyMultiplier (difficulty g) dvd length (matched (timeoutCallback c g'))"
    using r(2) by auto
  then show ?thesis by (simp add: session_inv_def r(1) r(3))
qed

text \<open>
  C9. Every operation of a session is to keep the revealed and the matched indices
  disjoint and the number of matched indices a multiple of the group size. Starting a
  game, a reveal, and the resolution of a group in the game that revealed it do so (the
  three lemmas above). The code breaks the claim for a resolution that is still pending
  when a game is started: \<open>startNewGame\<close> does not cancel it, although the component keeps
  \<^verbatim>\<open>timeoutRef\<close> to clear it and does clear it on unmount. In a game of triples the three
  cards of one token are revealed; before the timeout fires, the difficulty is changed
  to pairs, which starts a new game, where the invariant holds. The timeout then fires
  and its callback commits the three indices: three matched cards in a game of pairs.
\<close>

theorem stale_resolution_breaks_invariant:
  "(let b = run [startGame draws 0 2 Medium, clickCard 0, clickCard 1, clickCard 2,
                 startGame draws 1 2 Easy] loaded
    in session_inv (fst b) \<and> difficulty (fst b) = Easy \<and> matched (fst b) = [] \<and>
       snd b = [([0, 1], 2, [''b'', ''b'', ''b''])] \<and>
       matched (fst (fireTimeout b)) = [0, 1, 2] \<and>
       difficulty (fst (fireTimeout b)) = Easy \<and>
       \<not> session_inv (fst (fireTimeout b)))"
  by code_simp

text \<open>
  The same on the four-by-four grid: a triple revealed in a game of triples, the
  difficulty changed to pairs before the timeout.
\<close>

lemma stale_resolution_grid4:
  "(let b = run [startGame drawsEight 0 4 Easy, startGame drawsEight 1 4 Medium,
                 clickCard 0, clickCard 6, clickCard 11,
                 startGame drawsEight 2 4 Easy] loadedEight
    in session_inv (fst b) \<and> difficulty (fst b) = Easy \<and>
       matched (fst (fireTimeout b)) = [0, 6, 11] \<and>
       \<not> session_inv (fst (fireTimeout b)))"
  by code_simp

text \<open>
  C8. Once all cards are matched, every further reveal is to be ignored. The code
  ignores a reveal only if its index is in the matched (or revealed) list, and the
  timeout left pending by \<open>startNewGame\<close> breaks the claim: the pair 0 and 2 is revealed in
  a two-by-two game of pairs, the game is started again before the timeout, and the
  same pair is revealed in the new game. Both callbacks then run and each commits 0
  and 2. The matched list has as many entries as the deck has cards, so the game
  counts as completed, while the cards 1 and 3 are still face down: revealing card 1
  is accepted and changes the state.
\<close>

theorem completed_game_accepts_reveal:
  "(let g = fst (run [startGame draws 0 2 Easy, clickCard 0, clickCard 2,
                      startGame draws 1 2 Easy, clickCard 0, clickCard 2,
                      fireTimeout, fireTimeout] loaded)
    in cards g = [''a'', ''b'', ''a'', ''b''] \<and> matched g = [0, 2, 0, 2] \<and> flipped g = [] \<and>
       allMatched g \<and>
       flipCard 1 g = (g\<lparr>flipped := [1]\<rparr>, None) \<and>
       flipped (fst (flipCard 1 g)) \<noteq> flipped g)"
  by code_simp

text \<open>
  The same on the four-by-four grid: the pair 0 and 6 is committed twice, six further
  pairs complete the game, and the cards 8 and 14 are still face down.
\<close>

lemma completed_game_accepts_reveal_grid4:
  "(let g = fst (run [startGame drawsEight 0 4 Easy, clickCard 0, clickCard 6,
                      startGame drawsEight 1 4 Medium, startGame drawsEight 2 4 Easy,
                      clickCard 0, clickCard 6, fireTimeout, fireTimeout,
                      clickCard 1, clickCard 11, fireTimeout,
                      clickCard 2, clickCard 12, fireTimeout,
                      clickCard 3, clickCard 9, fireTimeout,
                      clickCard 4, clickCard 10, fireTimeout,
                      clickCard 5, clickCard 15, fireTimeout,
                      clickCard 7, clickCard 13, fireTimeout] loadedEight)
    in length (cards g) = 16 \<and> length (matched g) = 16 \<and> allMatched g \<and>
       8 \<notin> set (matched g) \<and>
       flipCard 8 g = (g\<lparr>flipped := [8]\<rparr>, None))"
  by code_simp

end
